theory Spec2Isabelle
  imports Complex_Main
begin

section \<open>The scan-and-round engine of \<open>src/scanner.ts\<close>\<close>

text \<open>
  The embedding follows \<open>ScannerSystem\<close> of \<open>src/scanner.ts\<close>. JavaScript numbers are
  modelled as reals (no rounding, no NaN), entities are identified by their index in the
  list the query \<open>queries.scannables.entities\<close> iterates, and every audible or visible
  notification the system produces is appended to a trace kept in the system state.
  The HUD caches (\<open>lastScoreValue\<close>, \<open>lastTotalValue\<close>, \<open>lastTimerSeconds\<close>) and the canvas
  drawing they guard are not part of the model.
\<close>

subsection \<open>Vectors\<close>

type_synonym Vector3 = "real \<times> real \<times> real"

definition distanceToSquared :: "Vector3 \<Rightarrow> Vector3 \<Rightarrow> real" where
  "distanceToSquared a b =
     (case a of (ax, ay, az) \<Rightarrow> case b of (bx, by, bz) \<Rightarrow>
        (ax - bx) * (ax - bx) + (ay - by) * (ay - by) + (az - bz) * (az - bz))"

subsection \<open>Components and entities\<close>

text \<open>
  The part of a three.js object the system reads and writes: its world position, its
  visibility, its uniform scale and the flag \<open>userData.scannedOut\<close>.
\<close>

record Object3D =
  position :: Vector3
  visible :: bool
  scaleScalar :: real
  scannedOut :: bool

text \<open>
  An entity of the query \<open>scannables\<close>. A component value is optional because the source
  reads each one through \<open>getValue(...) ?? fallback\<close>.
\<close>

record Scannable =
  object3D :: "Object3D option"
  productId :: "string option"
  lastScanTime :: "real option"
  homeX :: "real option"
  homeY :: "real option"
  homeZ :: "real option"

text \<open>An entity of the query \<open>scanners\<close>; only the world position of its object is read.\<close>

record ScannerZone =
  zoneObject3D :: "Vector3 option"
  radius :: "real option"

record config =
  scanRadius :: real
  scanCooldown :: real

subsection \<open>Catalog\<close>

record ProductDef =
  defProductId :: string
  assetKey :: string
  defScale :: real

definition productCatalog :: "ProductDef list" where
  "productCatalog =
    [\<lparr>defProductId = ''redApple'', assetKey = ''redApple'', defScale = 28 / 100\<rparr>,
     \<lparr>defProductId = ''pear'', assetKey = ''pear'', defScale = 10 / 100\<rparr>,
     \<lparr>defProductId = ''cerealCocoaCritters'', assetKey = ''cerealCocoaCritters'',
        defScale = 10 / 1000\<rparr>,
     \<lparr>defProductId = ''goldBar'', assetKey = ''goldBar'', defScale = 42 / 100\<rparr>,
     \<lparr>defProductId = ''shoe'', assetKey = ''shoe'', defScale = 13 / 10\<rparr>,
     \<lparr>defProductId = ''industrialShoe'', assetKey = ''industrialShoe'', defScale = 15 / 10\<rparr>,
     \<lparr>defProductId = ''chickenFriedRice'', assetKey = ''chickenFriedRice'',
        defScale = 13 / 1000\<rparr>,
     \<lparr>defProductId = ''chickenStrips'', assetKey = ''chickenStrips'', defScale = 125 / 100\<rparr>,
     \<lparr>defProductId = ''fleeceJacket'', assetKey = ''fleeceJacket'', defScale = 36 / 100\<rparr>,
     \<lparr>defProductId = ''glasses'', assetKey = ''glasses'', defScale = 2 / 100\<rparr>,
     \<lparr>defProductId = ''presentBox'', assetKey = ''presentBox'', defScale = 18 / 100\<rparr>]"

record ProductInfo =
  name :: string
  price :: real

text \<open>
  \<open>productInfo\<close> is the object literal of the source, read as the finite map of its own
  keys (names inherited from \<open>Object.prototype\<close> are not product ids of this model).
\<close>

definition productInfo :: "string \<rightharpoonup> ProductInfo" where
  "productInfo = map_of
    [(''redApple'', \<lparr>name = ''Red Apple'', price = 99 / 100\<rparr>),
     (''pear'', \<lparr>name = ''Fresh Pear'', price = 109 / 100\<rparr>),
     (''cerealCocoaCritters'', \<lparr>name = ''Cocoa Critters Cereal'', price = 499 / 100\<rparr>),
     (''goldBar'', \<lparr>name = ''Gold Bar (Display)'', price = 2999 / 100\<rparr>),
     (''shoe'', \<lparr>name = ''Running Shoe'', price = 5999 / 100\<rparr>),
     (''industrialShoe'', \<lparr>name = ''Industrial Work Boot'', price = 8999 / 100\<rparr>),
     (''chickenFriedRice'', \<lparr>name = ''Frozen Chicken Fried Rice'', price = 749 / 100\<rparr>),
     (''chickenStrips'', \<lparr>name = ''Crispy Chicken Strips'', price = 899 / 100\<rparr>),
     (''fleeceJacket'', \<lparr>name = ''Fleece Jacket'', price = 3999 / 100\<rparr>),
     (''glasses'', \<lparr>name = ''Fashion Glasses'', price = 1999 / 100\<rparr>),
     (''presentBox'', \<lparr>name = ''Gift Box'', price = 599 / 100\<rparr>)]"

subsection \<open>System state\<close>

text \<open>
  What the player hears and sees: the ten-second warning sound, the end-of-round feedback
  (win or lose sound and the round panel with the final tallies) and the feedback of one
  scan (beep, pulse of the scanner that matched, toast), which names the scanner, the
  scanned entity and its product id.
\<close>

datatype notification =
  TimerWarning
  | RoundComplete bool nat real
  | ScanSucceeded nat nat string

record ScannerSystem =
  timeRemaining :: real
  timerRunning :: bool
  gameStarted :: bool
  roundEnded :: bool
  roundShown :: bool
  timerWarningPlayed :: bool
  scannedCount :: nat
  totalCartValue :: real
  onboardingVisible :: bool
  trace :: "notification list"

definition gameDurationSeconds :: real where
  "gameDurationSeconds = 30"

definition goalCartValue :: real where
  "goalCartValue = 150"

text \<open>The state \<open>init()\<close> leaves behind.\<close>

definition init :: ScannerSystem where
  "init = \<lparr>timeRemaining = gameDurationSeconds, timerRunning = False, gameStarted = False,
            roundEnded = False, roundShown = False, timerWarningPlayed = False,
            scannedCount = 0, totalCartValue = 0, onboardingVisible = True, trace = []\<rparr>"

definition resetRound :: "ScannerSystem \<Rightarrow> ScannerSystem" where
  "resetRound s =
     s\<lparr>timeRemaining := gameDurationSeconds, timerRunning := False, gameStarted := False,
       roundEnded := False, roundShown := False, timerWarningPlayed := False,
       scannedCount := 0, totalCartValue := 0\<rparr>"

definition showRoundComplete :: "ScannerSystem \<Rightarrow> ScannerSystem" where
  "showRoundComplete s =
     (if roundShown s then s
      else
        (let s1 = s\<lparr>roundShown := True, roundEnded := True\<rparr>;
             hitGoal = (totalCartValue s1 \<ge> goalCartValue)
         in s1\<lparr>trace := trace s1 @ [RoundComplete hitGoal (scannedCount s1) (totalCartValue s1)]\<rparr>))"

subsection \<open>The tick: timer\<close>

text \<open>The block \<open>// Timer\<close> that opens \<open>update(delta, time)\<close>.\<close>

definition updateTimer :: "real \<Rightarrow> ScannerSystem \<Rightarrow> ScannerSystem" where
  "updateTimer delta s =
     (if timerRunning s then
        (let prevTime = timeRemaining s;
             s1 = s\<lparr>timeRemaining := timeRemaining s - delta\<rparr>;
             s2 = (if \<not> timerWarningPlayed s1 \<and> prevTime > 10 \<and> timeRemaining s1 \<le> 10
                      \<and> timeRemaining s1 > 0
                   then s1\<lparr>timerWarningPlayed := True, trace := trace s1 @ [TimerWarning]\<rparr>
                   else s1)
         in if timeRemaining s2 \<le> 0
            then showRoundComplete (s2\<lparr>timeRemaining := 0, timerRunning := False\<rparr>)
            else s2)
      else s)"

subsection \<open>The tick: proximity sweep\<close>

record Respawn =
  respawnHomeX :: real
  respawnHomeY :: real
  respawnHomeZ :: real
  entity :: nat

text \<open>
  The variables the two nested loops of \<open>update\<close> work on: the system, the entities of
  the query \<open>scannables\<close>, the set \<open>scannedThisFrame\<close> and the queue \<open>respawns\<close>.
\<close>

record sweep =
  sys :: ScannerSystem
  scannables :: "Scannable list"
  scannedThisFrame :: "nat set"
  respawns :: "Respawn list"

text \<open>The lines \<open>// Update score\<close> and \<open>// Update cart total\<close>.\<close>

definition updateScore :: "string \<Rightarrow> ScannerSystem \<Rightarrow> ScannerSystem" where
  "updateScore pid s =
     (let s1 = s\<lparr>scannedCount := scannedCount s + 1\<rparr>
      in case productInfo pid of
           Some info \<Rightarrow> s1\<lparr>totalCartValue := totalCartValue s1 + price info\<rparr>
         | None \<Rightarrow> s1)"

text \<open>
  The body of the inner loop once a candidate has passed every test, from
  \<open>if (!this.gameStarted)\<close> to \<open>respawns.push(...)\<close>; the \<open>break\<close> that follows it is the
  absence of a recursive call in \<open>scanZone\<close>.
\<close>

definition honourScan ::
  "real \<Rightarrow> nat \<Rightarrow> Vector3 \<Rightarrow> nat \<Rightarrow> Scannable \<Rightarrow> Object3D \<Rightarrow> sweep \<Rightarrow> sweep" where
  "honourScan time z scannerPos i scannable scannableObj w =
     (let s = sys w;
          s1 = (if \<not> gameStarted s
                then s\<lparr>gameStarted := True, timerRunning := True, onboardingVisible := False\<rparr>
                else s);
          pid = (case productId scannable of Some p \<Rightarrow> p | None \<Rightarrow> '''');
          s2 = updateScore pid s1;
          s3 = s2\<lparr>trace := trace s2 @ [ScanSucceeded z i pid]\<rparr>;
          hx = (case homeX scannable of Some x \<Rightarrow> x | None \<Rightarrow> fst scannerPos);
          hy = (case homeY scannable of Some y \<Rightarrow> y | None \<Rightarrow> fst (snd scannerPos));
          hz = (case homeZ scannable of Some v \<Rightarrow> v | None \<Rightarrow> snd (snd scannerPos));
          scannable' = scannable
            \<lparr>lastScanTime := Some time,
             object3D := Some (scannableObj\<lparr>visible := False, position := (0, - 999, 0),
                                            scannedOut := True\<rparr>)\<rparr>
      in w\<lparr>sys := s3,
           scannables := (scannables w)[i := scannable'],
           scannedThisFrame := insert i (scannedThisFrame w),
           respawns := respawns w @
             [\<lparr>respawnHomeX = hx, respawnHomeY = hy, respawnHomeZ = hz, entity = i\<rparr>]\<rparr>)"

text \<open>
  The inner loop \<open>for (const scannable of this.queries.scannables.entities)\<close> for the
  scanner number \<open>z\<close>, over the entities paired with their indices. Every \<open>continue\<close> is a
  recursive call on the rest of the entities.
\<close>

fun scanZone ::
  "real \<Rightarrow> real \<Rightarrow> nat \<Rightarrow> Vector3 \<Rightarrow> real \<Rightarrow> (nat \<times> Scannable) list \<Rightarrow> sweep \<Rightarrow> sweep" where
  "scanZone cooldown time z scannerPos radiusSq [] w = w"
| "scanZone cooldown time z scannerPos radiusSq ((i, scannable) # rest) w =
     (if i \<in> scannedThisFrame w then scanZone cooldown time z scannerPos radiusSq rest w
      else case object3D scannable of
        None \<Rightarrow> scanZone cooldown time z scannerPos radiusSq rest w
      | Some scannableObj \<Rightarrow>
          if scannedOut scannableObj then scanZone cooldown time z scannerPos radiusSq rest w
          else
            (let distSq = distanceToSquared scannerPos (position scannableObj) in
             if distSq > radiusSq then scanZone cooldown time z scannerPos radiusSq rest w
             else
               (let last = (case lastScanTime scannable of Some t \<Rightarrow> t | None \<Rightarrow> - 1) in
                if last \<ge> 0 \<and> time - last < cooldown
                then scanZone cooldown time z scannerPos radiusSq rest w
                else if \<not> timerRunning (sys w) \<and> timeRemaining (sys w) \<le> 0 then
                  (if roundEnded (sys w)
                   then honourScan time z scannerPos i scannable scannableObj
                          (w\<lparr>sys := resetRound (sys w)\<rparr>)
                   else scanZone cooldown time z scannerPos radiusSq rest w)
                else honourScan time z scannerPos i scannable scannableObj w)))"

definition zoneRadiusSq :: "config \<Rightarrow> ScannerZone \<Rightarrow> real" where
  "zoneRadiusSq cfg scanner =
     (let baseRadius = (case radius scanner of Some r \<Rightarrow> r | None \<Rightarrow> scanRadius cfg);
          zoneRadius = baseRadius * (11 / 10)
      in zoneRadius * zoneRadius)"

text \<open>The outer loop \<open>for (const scanner of this.queries.scanners.entities)\<close>.\<close>

fun sweepZones :: "config \<Rightarrow> real \<Rightarrow> (nat \<times> ScannerZone) list \<Rightarrow> sweep \<Rightarrow> sweep" where
  "sweepZones cfg time [] w = w"
| "sweepZones cfg time ((z, scanner) # rest) w =
     (case zoneObject3D scanner of
        None \<Rightarrow> sweepZones cfg time rest w
      | Some scannerPos \<Rightarrow>
          sweepZones cfg time rest
            (scanZone (scanCooldown cfg) time z scannerPos (zoneRadiusSq cfg scanner)
               (enumerate 0 (scannables w)) w))"

subsection \<open>The tick: respawns\<close>

datatype error = TypeError

text \<open>
  \<open>r\<close> is the value \<open>Math.random()\<close> returns and \<open>getGLTF\<close> tells whether
  \<open>AssetManager.getGLTF\<close> finds the asset. The result is the entity created, \<open>None\<close> after
  either early \<open>return\<close>, or the \<open>TypeError\<close> of reading \<open>def.assetKey\<close> when the index is
  outside the catalog (which a value of \<open>Math.random()\<close>, in \<open>[0, 1)\<close>, never causes).
\<close>

definition spawnRandomProductAt ::
  "(string \<Rightarrow> bool) \<Rightarrow> real \<Rightarrow> real \<Rightarrow> real \<Rightarrow> real \<Rightarrow> error + Scannable option" where
  "spawnRandomProductAt getGLTF r hx hy hz =
     (if length productCatalog = 0 then Inr None
      else
        (let idx = \<lfloor>r * real (length productCatalog)\<rfloor> in
         if idx < 0 \<or> int (length productCatalog) \<le> idx then Inl TypeError
         else
           (let pdef = productCatalog ! nat idx in
            if \<not> getGLTF (assetKey pdef) then Inr None
            else Inr (Some
              \<lparr>object3D = Some \<lparr>position = (hx, hy, hz), visible = True,
                                 scaleScalar = defScale pdef, scannedOut = False\<rparr>,
               productId = Some (defProductId pdef),
               lastScanTime = Some (- 1),
               homeX = Some hx, homeY = Some hy, homeZ = Some hz\<rparr>))))"

text \<open>
  \<open>Number.prototype.toFixed(3)\<close>: the sign, and the integer \<open>n\<close> with \<open>n / 1000\<close> nearest to
  the magnitude (the larger one on a tie); from \<open>10^21\<close> on, the number itself.
\<close>

datatype fixed = Fixed bool nat | Plain bool real

definition toFixed3 :: "real \<Rightarrow> fixed" where
  "toFixed3 x =
     (let neg = (x < 0); m = (if x < 0 then - x else x)
      in if m \<ge> 10 ^ 21 then Plain neg m else Fixed neg (nat \<lfloor>m * 1000 + 1 / 2\<rfloor>))"

definition slotKey :: "Respawn \<Rightarrow> fixed \<times> fixed \<times> fixed" where
  "slotKey r = (toFixed3 (respawnHomeX r), toFixed3 (respawnHomeY r), toFixed3 (respawnHomeZ r))"

text \<open>
  The loop \<open>for (const r of respawns)\<close> with its set \<open>usedSlots\<close>. \<open>rnd k\<close> is the value
  of the \<open>k\<close>-th call of \<open>Math.random()\<close> in this tick. The result is the list of entities
  created, in order, and the error that ended the loop, if any.
\<close>

fun flushRespawns ::
  "(string \<Rightarrow> bool) \<Rightarrow> (nat \<Rightarrow> real) \<Rightarrow> nat \<Rightarrow> (fixed \<times> fixed \<times> fixed) set \<Rightarrow> Respawn list
     \<Rightarrow> Scannable list \<times> error option" where
  "flushRespawns getGLTF rnd k usedSlots [] = ([], None)"
| "flushRespawns getGLTF rnd k usedSlots (r # rs) =
     (let key = slotKey r in
      if key \<in> usedSlots then flushRespawns getGLTF rnd k usedSlots rs
      else
        (case spawnRandomProductAt getGLTF (rnd k)
                (respawnHomeX r) (respawnHomeY r) (respawnHomeZ r) of
           Inl e \<Rightarrow> ([], Some e)
         | Inr None \<Rightarrow> flushRespawns getGLTF rnd (Suc k) (insert key usedSlots) rs
         | Inr (Some new) \<Rightarrow>
             (case flushRespawns getGLTF rnd (Suc k) (insert key usedSlots) rs of
                (created, err) \<Rightarrow> (new # created, err))))"

subsection \<open>The tick as a whole\<close>

record outcome =
  system :: ScannerSystem
  entities :: "Scannable list"
  thrown :: "error option"

text \<open>
  The environment of one call of \<open>update\<close>: the assets that are loaded, the configuration,
  the values of \<open>Math.random()\<close> and the entities of the query \<open>scanners\<close>. The call
  takes the system and the entities of the query \<open>scannables\<close> and returns both, the
  entities it created placed after the ones it was given, and the error it threw, if any.
\<close>

record env =
  getGLTF :: "string \<Rightarrow> bool"
  cfg :: config
  mathRandom :: "nat \<Rightarrow> real"
  scanners :: "ScannerZone list"

definition sweepStart :: "ScannerSystem \<Rightarrow> Scannable list \<Rightarrow> sweep" where
  "sweepStart s objs = \<lparr>sys = s, scannables = objs, scannedThisFrame = {}, respawns = []\<rparr>"

definition update :: "env \<Rightarrow> real \<Rightarrow> real \<Rightarrow> ScannerSystem \<Rightarrow> Scannable list \<Rightarrow> outcome" where
  "update e delta time s objs =
     (let s1 = updateTimer delta s;
          w = sweepZones (cfg e) time (enumerate 0 (scanners e)) (sweepStart s1 objs)
      in case flushRespawns (getGLTF e) (mathRandom e) 0 {} (respawns w) of
           (created, err) \<Rightarrow>
             \<lparr>system = sys w, entities = scannables w @ created, thrown = err\<rparr>)"

subsection \<open>Vocabulary of the properties\<close>

text \<open>
  The round phase the four booleans stand for: the clock runs, or the round has been
  flagged ended, or neither.
\<close>

datatype phase = Idle | Running | Ended

definition phase :: "ScannerSystem \<Rightarrow> phase" where
  "phase s = (if timerRunning s then Running else if roundEnded s then Ended else Idle)"

text \<open>
  The states the system can be in: the one \<open>init()\<close> leaves, and from there every state
  after the timer block of a tick with a non-negative \<open>delta\<close> and after the inner loop of
  one scanner, whatever the entities, the scanner and the time.
\<close>

inductive reachable :: "ScannerSystem \<Rightarrow> bool" where
  reach_init: "reachable init"
| reach_timer: "reachable s \<Longrightarrow> 0 \<le> delta \<Longrightarrow> reachable (updateTimer delta s)"
| reach_zone: "reachable (sys w) \<Longrightarrow>
     reachable (sys (scanZone cooldown time z scannerPos radiusSq items w))"

text \<open>
  The invariant of the round state: the two end-of-round flags agree, the remaining time
  is within the round, a running clock means a started round that has not ended and has
  time left, a stopped clock in a started round means the round has ended at zero, and
  before the first scan of a round everything is at its initial value.
\<close>

definition roundInv :: "ScannerSystem \<Rightarrow> bool" where
  "roundInv s \<longleftrightarrow>
     roundShown s = roundEnded s
     \<and> 0 \<le> timeRemaining s \<and> timeRemaining s \<le> gameDurationSeconds
     \<and> (timerRunning s \<longrightarrow> gameStarted s \<and> \<not> roundEnded s \<and> 0 < timeRemaining s)
     \<and> (\<not> timerRunning s \<and> gameStarted s \<longrightarrow> roundEnded s \<and> timeRemaining s = 0)
     \<and> (\<not> gameStarted s \<longrightarrow> \<not> roundEnded s \<and> timeRemaining s = gameDurationSeconds
            \<and> scannedCount s = 0 \<and> totalCartValue s = 0)"

text \<open>
  The tests of the inner loop that decide whether an entity is a candidate of a scanner:
  not yet scanned in this frame, an object that is not scanned out, within the radius,
  not cooling down.
\<close>

definition onCooldown :: "real \<Rightarrow> real \<Rightarrow> Scannable \<Rightarrow> bool" where
  "onCooldown cooldown time scannable =
     (let last = (case lastScanTime scannable of Some t \<Rightarrow> t | None \<Rightarrow> - 1)
      in last \<ge> 0 \<and> time - last < cooldown)"

definition passesTests ::
  "real \<Rightarrow> real \<Rightarrow> Vector3 \<Rightarrow> real \<Rightarrow> nat set \<Rightarrow> nat \<times> Scannable \<Rightarrow> bool" where
  "passesTests cooldown time scannerPos radiusSq scanned it =
     (case it of (i, scannable) \<Rightarrow>
        i \<notin> scanned \<and>
        (case object3D scannable of
           None \<Rightarrow> False
         | Some scannableObj \<Rightarrow>
             \<not> scannedOut scannableObj
             \<and> \<not> distanceToSquared scannerPos (position scannableObj) > radiusSq
             \<and> \<not> onCooldown cooldown time scannable))"

text \<open>The combination of the round booleans under which the inner loop skips a candidate.\<close>

definition discards :: "ScannerSystem \<Rightarrow> bool" where
  "discards s \<longleftrightarrow> \<not> timerRunning s \<and> timeRemaining s \<le> 0 \<and> \<not> roundEnded s"

text \<open>The sweep state a candidate is honoured in: reset first when the round is over.\<close>

definition restartIfOver :: "sweep \<Rightarrow> sweep" where
  "restartIfOver w =
     (if \<not> timerRunning (sys w) \<and> timeRemaining (sys w) \<le> 0
      then w\<lparr>sys := resetRound (sys w)\<rparr> else w)"

text \<open>The notifications produced between two states, and what a scan notification names.\<close>

definition emitted :: "ScannerSystem \<Rightarrow> ScannerSystem \<Rightarrow> notification list" where
  "emitted s s' = drop (length (trace s)) (trace s')"

fun scannerOf :: "notification \<Rightarrow> nat option" where
  "scannerOf (ScanSucceeded z i p) = Some z"
| "scannerOf _ = None"

fun entityOf :: "notification \<Rightarrow> nat option" where
  "entityOf (ScanSucceeded z i p) = Some i"
| "entityOf _ = None"

definition scans :: "notification list \<Rightarrow> notification list" where
  "scans ns = filter (\<lambda>n. scannerOf n \<noteq> None) ns"

text \<open>The product id and the price a scan of an entity counts.\<close>

definition pidOf :: "Scannable \<Rightarrow> string" where
  "pidOf scannable = (case productId scannable of Some p \<Rightarrow> p | None \<Rightarrow> '''')"

definition priceOf :: "string \<Rightarrow> real" where
  "priceOf pid = (case productInfo pid of Some info \<Rightarrow> price info | None \<Rightarrow> 0)"

subsection \<open>A scene\<close>

text \<open>
  The helper \<open>spawnProduct\<close> of \<open>src/index.ts\<close> (with its asset loaded), which sets the
  product id only and leaves the other component values at their defaults; the scanner
  pad and the configuration defaults of the source; and a gold bar carried onto the pad.
\<close>

definition spawnProduct :: "string \<Rightarrow> real \<Rightarrow> real \<Rightarrow> real \<Rightarrow> real \<Rightarrow> Scannable" where
  "spawnProduct pid x y z scale =
     \<lparr>object3D = Some \<lparr>position = (x, y, z), visible = True, scaleScalar = scale,
                        scannedOut = False\<rparr>,
      productId = Some pid, lastScanTime = Some (- 1),
      homeX = Some 0, homeY = Some 0, homeZ = Some 0\<rparr>"

definition scannerPad :: ScannerZone where
  "scannerPad = \<lparr>zoneObject3D = Some (9 / 10, 86 / 100, - 5 / 10), radius = Some (25 / 100)\<rparr>"

definition deskEnv :: env where
  "deskEnv = \<lparr>getGLTF = (\<lambda>k. True), cfg = \<lparr>scanRadius = 25 / 100, scanCooldown = 75 / 100\<rparr>,
              mathRandom = (\<lambda>k. 0), scanners = [scannerPad]\<rparr>"

definition goldBarOnPad :: Scannable where
  "goldBarOnPad = spawnProduct ''goldBar'' (9 / 10) (86 / 100) (- 5 / 10) (42 / 100)"

text \<open>The state after the first tick in which the gold bar lies on the pad.\<close>

definition firstScan :: ScannerSystem where
  "firstScan = system (update deskEnv 0 0 init [goldBarOnPad])"

text \<open>
  A plant, which \<open>src/data/products.ts\<close> lists and \<open>productInfo\<close> does not, carried onto
  the pad; the state after a second tick that scans it; and the state after a tick of
  31 seconds that follows the first scan.
\<close>

definition plantOnPad :: Scannable where
  "plantOnPad = spawnProduct ''plantSansevieria'' (9 / 10) (86 / 100) (- 5 / 10) (3 / 10)"

definition secondScan :: ScannerSystem where
  "secondScan = system (update deskEnv (1 / 2) 1 firstScan [plantOnPad])"


subsection \<open>Scans of one round\<close>


subsection \<open>What a scan notification of a tick says about the scene\<close>

text \<open>
  \<open>scanJustified\<close>: the notification names a scanner and an entity of the scene as it was
  when the tick began, the scanner has a position, the entity passed the tests of that
  scanner, and the product id is the entity's. \<open>respawnOf\<close> is the respawn the scan queues:
  the home slot of the entity (the scanner position where a coordinate is missing).
\<close>

definition scanJustified ::
  "config \<Rightarrow> real \<Rightarrow> ScannerZone list \<Rightarrow> Scannable list \<Rightarrow> notification \<Rightarrow> bool" where
  "scanJustified c time zones objs n =
     (case n of
        ScanSucceeded z i p \<Rightarrow>
          z < length zones \<and> i < length objs \<and> p = pidOf (objs ! i) \<and>
          (case zoneObject3D (zones ! z) of
             None \<Rightarrow> False
           | Some scannerPos \<Rightarrow>
               passesTests (scanCooldown c) time scannerPos (zoneRadiusSq c (zones ! z)) {}
                 (i, objs ! i))
      | _ \<Rightarrow> False)"

definition respawnFor :: "Vector3 \<Rightarrow> Scannable \<Rightarrow> nat \<Rightarrow> Respawn" where
  "respawnFor scannerPos scannable i =
     \<lparr>respawnHomeX = (case homeX scannable of Some x \<Rightarrow> x | None \<Rightarrow> fst scannerPos),
      respawnHomeY = (case homeY scannable of Some y \<Rightarrow> y | None \<Rightarrow> fst (snd scannerPos)),
      respawnHomeZ = (case homeZ scannable of Some v \<Rightarrow> v | None \<Rightarrow> snd (snd scannerPos)),
      entity = i\<rparr>"

definition respawnOf :: "ScannerZone list \<Rightarrow> Scannable list \<Rightarrow> notification \<Rightarrow> Respawn" where
  "respawnOf zones objs n =
     (case n of
        ScanSucceeded z i p \<Rightarrow>
          respawnFor (case zoneObject3D (zones ! z) of Some v \<Rightarrow> v | None \<Rightarrow> (0, 0, 0))
            (objs ! i) i
      | _ \<Rightarrow> respawnFor (0, 0, 0) (objs ! 0) 0)"

text \<open>
  The invariant of the outer loop, for a tick that began with the entities \<open>objs\<close> and the
  trace \<open>tr0\<close>, after the scanners in \<open>Z\<close>: the entities not yet scanned in this frame are
  untouched, and the notifications emitted so far are justified scans, of distinct
  scanners from \<open>Z\<close> and of distinct entities, all of them in \<open>scannedThisFrame\<close>, with one
  queued respawn each.
\<close>

definition sweepInv ::
  "config \<Rightarrow> real \<Rightarrow> ScannerZone list \<Rightarrow> Scannable list \<Rightarrow> notification list \<Rightarrow> nat set
     \<Rightarrow> sweep \<Rightarrow> bool" where
  "sweepInv c time zones objs tr0 Z w \<longleftrightarrow>
     length (scannables w) = length objs
     \<and> (\<forall>j. j \<notin> scannedThisFrame w \<longrightarrow> scannables w ! j = objs ! j)
     \<and> (\<exists>ns. trace (sys w) = tr0 @ ns
           \<and> respawns w = map (respawnOf zones objs) ns
           \<and> distinct (map scannerOf ns) \<and> distinct (map entityOf ns)
           \<and> (\<forall>n\<in>set ns. scanJustified c time zones objs n
                 \<and> (\<exists>z\<in>Z. scannerOf n = Some z)
                 \<and> (\<exists>i\<in>scannedThisFrame w. entityOf n = Some i)))"


text \<open>
  More objects on the pad: a plant scanned at time \<open>t\<close> but not retired, a gold bar
  exactly on the rim of the tolerance radius, and a plant that has been scanned out.
\<close>

definition plantScannedAt :: "real \<Rightarrow> Scannable" where
  "plantScannedAt t = plantOnPad\<lparr>lastScanTime := Some t\<rparr>"




definition noAssets :: env where
  "noAssets = deskEnv\<lparr>getGLTF := (\<lambda>k. False)\<rparr>"

subsection \<open>The flush of the respawn queue, as specified\<close>

text \<open>
  What the flush is meant to do, in the words of its comment (\<open>de-duplicate by home slot so
  only one spawn per slot per frame\<close>): \<open>honoured\<close> keeps, of the queued respawns, the first
  one for each slot key and drops the later ones; \<open>drawn r\<close> is the catalog entry the random
  value \<open>r\<close> selects; \<open>replacement\<close> is the entity put at the home slot of a respawn for a
  catalog entry; \<open>respawned\<close> is what the \<open>k\<close>-th honoured respawn creates: the replacement
  when the asset of the drawn entry is loaded, nothing otherwise.
\<close>

fun honoured :: "Respawn list \<Rightarrow> Respawn list" where
  "honoured [] = []"
| "honoured (r # rs) = r # honoured (filter (\<lambda>q. slotKey q \<noteq> slotKey r) rs)"

definition drawn :: "real \<Rightarrow> ProductDef" where
  "drawn r = productCatalog ! nat \<lfloor>r * real (length productCatalog)\<rfloor>"

definition replacement :: "ProductDef \<Rightarrow> Respawn \<Rightarrow> Scannable" where
  "replacement pdef r =
     \<lparr>object3D = Some \<lparr>position = (respawnHomeX r, respawnHomeY r, respawnHomeZ r),
                        visible = True, scaleScalar = defScale pdef, scannedOut = False\<rparr>,
      productId = Some (defProductId pdef),
      lastScanTime = Some (- 1),
      homeX = Some (respawnHomeX r), homeY = Some (respawnHomeY r),
      homeZ = Some (respawnHomeZ r)\<rparr>"

definition respawned :: "(string \<Rightarrow> bool) \<Rightarrow> (nat \<Rightarrow> real) \<Rightarrow> nat \<times> Respawn \<Rightarrow> Scannable option" where
  "respawned g rnd kr =
     (case kr of (k, r) \<Rightarrow>
        if g (assetKey (drawn (rnd k))) then Some (replacement (drawn (rnd k)) r) else None)"

section \<open>Properties\<close>

subsection \<open>The round invariant\<close>

lemma roundInv_init: "roundInv init"
  by (simp add: roundInv_def init_def gameDurationSeconds_def)

lemma roundInv_updateTimer:
  assumes "roundInv s" and "0 \<le> delta"
  shows "roundInv (updateTimer delta s)"
  using assms
  by (auto simp: roundInv_def updateTimer_def showRoundComplete_def Let_def
      gameDurationSeconds_def)

lemma roundInv_honourScan:
  assumes "roundInv (sys w)" and "timerRunning (sys w) \<or> 0 < timeRemaining (sys w)"
  shows "roundInv (sys (honourScan time z sp i sc obj w))"
  using assms
  by (auto simp: roundInv_def honourScan_def updateScore_def Let_def gameDurationSeconds_def
      split: option.splits)

lemma roundInv_restart:
  assumes "roundInv (sys w)"
  shows "roundInv (sys (honourScan time z sp i sc obj (w\<lparr>sys := resetRound (sys w)\<rparr>)))"
  using assms
  by (auto simp: roundInv_def honourScan_def updateScore_def resetRound_def Let_def
      gameDurationSeconds_def split: option.splits)

lemma roundInv_scanZone:
  "roundInv (sys w) \<Longrightarrow> roundInv (sys (scanZone cd time z sp rsq items w))"
proof (induction items)
  case Nil
  then show ?case by simp
next
  case (Cons it items)
  obtain i sc where it: "it = (i, sc)" by (cases it)
  show ?case
    using Cons roundInv_honourScan[of w] roundInv_restart[of w]
    by (auto simp: it Let_def split: option.splits)
qed

lemma roundInv_sweepZones:
  "roundInv (sys w) \<Longrightarrow> roundInv (sys (sweepZones c time zs w))"
proof (induction zs arbitrary: w)
  case Nil
  then show ?case by simp
next
  case (Cons zn zs)
  obtain z scanner where zn: "zn = (z, scanner)" by (cases zn)
  show ?case
    using Cons by (auto simp: zn roundInv_scanZone split: option.splits)
qed

lemma system_update:
  "system (update e delta time s objs) =
     sys (sweepZones (cfg e) time (enumerate 0 (scanners e))
            (sweepStart (updateTimer delta s) objs))"
  by (simp add: update_def Let_def split: prod.splits)

lemma roundInv_update:
  assumes "roundInv s" and "0 \<le> delta"
  shows "roundInv (system (update e delta time s objs))"
  unfolding system_update
  by (rule roundInv_sweepZones) (simp add: sweepStart_def roundInv_updateTimer assms)

lemma reachable_roundInv: "reachable s \<Longrightarrow> roundInv s"
  by (induction rule: reachable.induct)
    (simp_all add: roundInv_init roundInv_updateTimer roundInv_scanZone)

lemma reachable_sweepZones:
  "reachable (sys w) \<Longrightarrow> reachable (sys (sweepZones c time zs w))"
proof (induction zs arbitrary: w)
  case Nil
  then show ?case by simp
next
  case (Cons zn zs)
  obtain z scanner where zn: "zn = (z, scanner)" by (cases zn)
  show ?case
    using Cons by (auto simp: zn reach_zone split: option.splits)
qed

lemma reachable_update:
  assumes "reachable s" and "0 \<le> delta"
  shows "reachable (system (update e delta time s objs))"
  unfolding system_update
  by (rule reachable_sweepZones) (simp add: sweepStart_def reach_timer assms)

lemma reachable_not_discards: "reachable s \<Longrightarrow> \<not> discards s"
  by (drule reachable_roundInv) (auto simp: roundInv_def discards_def gameDurationSeconds_def)

subsection \<open>The inner loop honours the first candidate\<close>

lemma scanZone_find:
  "scanZone cd time z sp rsq items w =
     (if discards (sys w) then w
      else case find (passesTests cd time sp rsq (scannedThisFrame w)) items of
             None \<Rightarrow> w
           | Some (i, sc) \<Rightarrow> honourScan time z sp i sc (the (object3D sc)) (restartIfOver w))"
proof (induction items)
  case Nil
  then show ?case by simp
next
  case (Cons it items)
  obtain i sc where it: "it = (i, sc)" by (cases it)
  show ?case
    using Cons
    by (auto simp: it passesTests_def onCooldown_def discards_def restartIfOver_def Let_def
        split: option.splits)
qed

lemma trace_resetRound [simp]: "trace (resetRound s) = trace s"
  by (simp add: resetRound_def)

lemma trace_updateScore [simp]: "trace (updateScore pid s) = trace s"
  by (simp add: updateScore_def Let_def split: option.splits)

lemma sys_restartIfOver_trace [simp]: "trace (sys (restartIfOver w)) = trace (sys w)"
  by (simp add: restartIfOver_def)

lemma restartIfOver_fields [simp]:
  "scannables (restartIfOver w) = scannables w"
  "scannedThisFrame (restartIfOver w) = scannedThisFrame w"
  "respawns (restartIfOver w) = respawns w"
  by (simp_all add: restartIfOver_def)

lemma honourScan_fields:
  "scannedThisFrame (honourScan time z sp i sc obj w) = insert i (scannedThisFrame w)"
  "trace (sys (honourScan time z sp i sc obj w)) = trace (sys w) @ [ScanSucceeded z i (pidOf sc)]"
  "length (scannables (honourScan time z sp i sc obj w)) = length (scannables w)"
  "j \<noteq> i \<Longrightarrow> scannables (honourScan time z sp i sc obj w) ! j = scannables w ! j"
  "length (respawns (honourScan time z sp i sc obj w)) = Suc (length (respawns w))"
  by (simp_all add: honourScan_def Let_def pidOf_def)


subsection \<open>Evaluating the scene\<close>

lemmas eval_defs = update_def updateTimer_def init_def sweepStart_def honourScan_def
  updateScore_def resetRound_def showRoundComplete_def zoneRadiusSq_def distanceToSquared_def
  spawnProduct_def scannerPad_def deskEnv_def goldBarOnPad_def gameDurationSeconds_def
  goalCartValue_def productInfo_def Let_def enumerate_simps

lemma firstScan_eq:
  "firstScan = \<lparr>timeRemaining = 30, timerRunning = True, gameStarted = True,
     roundEnded = False, roundShown = False, timerWarningPlayed = False,
     scannedCount = 1, totalCartValue = 2999 / 100, onboardingVisible = False,
     trace = [ScanSucceeded 0 0 ''goldBar'']\<rparr>"
  by (simp add: firstScan_def eval_defs split: prod.splits)

lemma reachable_firstScan: "reachable firstScan"
  unfolding firstScan_def by (rule reachable_update[OF reach_init]) simp

subsection \<open>End of the round\<close>

text \<open>
  Claim C3. When the clock of a running round reaches zero in a tick (the remaining time
  is at most \<open>delta\<close>), the timer block leaves the round ended with the clock at zero and
  emits exactly one end-of-round notification, whose outcome is
  \<open>totalCartValue \<ge> goalCartValue\<close> and which carries the final tallies. Running the
  end-of-round logic again, as \<open>showRoundComplete\<close> or as the timer block of a further
  tick, changes nothing: no second notification and no second evaluation. Calling
  \<open>showRoundComplete\<close> twice is the same as calling it once, in any state.
\<close>

theorem round_end_once:
  assumes "reachable s" and "timerRunning s" and "timeRemaining s \<le> delta"
  shows "phase (updateTimer delta s) = Ended
    \<and> timeRemaining (updateTimer delta s) = 0
    \<and> emitted s (updateTimer delta s)
        = [RoundComplete (totalCartValue s \<ge> goalCartValue) (scannedCount s) (totalCartValue s)]
    \<and> showRoundComplete (updateTimer delta s) = updateTimer delta s
    \<and> updateTimer delta' (updateTimer delta s) = updateTimer delta s
    \<and> showRoundComplete (showRoundComplete s') = showRoundComplete s'"
proof -
  have inv: "roundInv s" by (rule reachable_roundInv) fact
  with assms(2) have ns: "\<not> roundShown s" by (simp add: roundInv_def)
  show ?thesis
    using assms(2,3) ns
    by (simp add: updateTimer_def showRoundComplete_def phase_def emitted_def Let_def)
qed

theorem round_end_once_witness:
  "reachable firstScan \<and> timerRunning firstScan \<and> timeRemaining firstScan \<le> 31
    \<and> phase (updateTimer 31 firstScan) = Ended
    \<and> emitted firstScan (updateTimer 31 firstScan) = [RoundComplete False 1 (2999 / 100)]
    \<and> showRoundComplete (updateTimer 31 firstScan) = updateTimer 31 firstScan"
proof -
  have t: "timerRunning firstScan" and l: "timeRemaining firstScan \<le> 31"
    by (simp_all add: firstScan_eq)
  show ?thesis
    using round_end_once[OF reachable_firstScan t l, of 0 init] reachable_firstScan t l
    by (simp add: firstScan_eq goalCartValue_def)
qed

subsection \<open>Scores\<close>

lemma updateTimer_score [simp]:
  "scannedCount (updateTimer delta s) = scannedCount s"
  "totalCartValue (updateTimer delta s) = totalCartValue s"
  by (simp_all add: updateTimer_def showRoundComplete_def Let_def)






lemmas test_defs = passesTests_def onCooldown_def pidOf_def priceOf_def

lemma secondScan_eq:
  "secondScan = \<lparr>timeRemaining = 59 / 2, timerRunning = True, gameStarted = True,
     roundEnded = False, roundShown = False, timerWarningPlayed = False,
     scannedCount = 2, totalCartValue = 2999 / 100, onboardingVisible = False,
     trace = [ScanSucceeded 0 0 ''goldBar'', ScanSucceeded 0 0 ''plantSansevieria'']\<rparr>"
  by (simp add: secondScan_def firstScan_eq plantOnPad_def eval_defs split: prod.splits)



subsection \<open>A scan after the end of the round\<close>






subsection \<open>No candidate is discarded\<close>



subsection \<open>The outer loop\<close>

lemma sweepInv_start: "sweepInv c time zones objs (trace s) {} (sweepStart s objs)"
  by (simp add: sweepInv_def sweepStart_def)

lemma sweepInv_mono:
  assumes "sweepInv c time zones objs tr0 Z w" and "Z \<subseteq> Z'"
  shows "sweepInv c time zones objs tr0 Z' w"
  using assms unfolding sweepInv_def by blast

lemma honourScan_respawns:
  "respawns (honourScan time z sp i sc obj w) = respawns w @ [respawnFor sp sc i]"
  by (simp add: honourScan_def respawnFor_def Let_def)

lemma find_enumerate_Some:
  assumes "find P (enumerate 0 xs) = Some (i, x)"
  shows "i < length xs \<and> x = xs ! i \<and> P (i, xs ! i) \<and> (\<forall>j<i. \<not> P (j, xs ! j))"
proof -
  from assms obtain k where k: "k < length (enumerate 0 xs)" "P (enumerate 0 xs ! k)"
    "(i, x) = enumerate 0 xs ! k" "\<forall>j<k. \<not> P (enumerate 0 xs ! j)"
    unfolding find_Some_iff by blast
  from k(1) have kl: "k < length xs" by simp
  with k(3) have ix: "i = k" "x = xs ! k" by (simp_all add: nth_enumerate_eq)
  have "\<forall>j<k. \<not> P (j, xs ! j)"
  proof (intro allI impI)
    fix j assume "j < k"
    with k(4) kl show "\<not> P (j, xs ! j)" by (auto simp: nth_enumerate_eq dest!: spec[of _ j])
  qed
  with k(2) kl ix show ?thesis by (simp add: nth_enumerate_eq)
qed

lemma passesTests_unscanned:
  "passesTests cd time sp rsq S (i, sc) \<Longrightarrow> i \<notin> S \<and> passesTests cd time sp rsq {} (i, sc)"
  by (simp add: passesTests_def)

lemma sweepInv_scanZone:
  assumes inv: "sweepInv c time zones objs tr0 Z w"
    and z: "z \<notin> Z" "z < length zones" "zoneObject3D (zones ! z) = Some sp"
  shows "sweepInv c time zones objs tr0 (insert z Z)
     (scanZone (scanCooldown c) time z sp (zoneRadiusSq c (zones ! z))
        (enumerate 0 (scannables w)) w)"
proof -
  let ?P = "passesTests (scanCooldown c) time sp (zoneRadiusSq c (zones ! z)) (scannedThisFrame w)"
  let ?w' = "scanZone (scanCooldown c) time z sp (zoneRadiusSq c (zones ! z))
        (enumerate 0 (scannables w)) w"
  have same: "sweepInv c time zones objs tr0 (insert z Z) w"
    by (rule sweepInv_mono[OF inv]) blast
  show ?thesis
  proof (cases "discards (sys w)")
    case True
    then show ?thesis using same by (simp add: scanZone_find)
  next
    case nd: False
    show ?thesis
    proof (cases "find ?P (enumerate 0 (scannables w))")
      case None
      then show ?thesis using same nd by (simp add: scanZone_find)
    next
      case (Some it)
      obtain i sc where it: "it = (i, sc)" by (cases it)
      from Some it have f: "find ?P (enumerate 0 (scannables w)) = Some (i, sc)" by simp
      from find_enumerate_Some[OF f]
      have i: "i < length (scannables w)" and sc: "sc = scannables w ! i" and p: "?P (i, sc)"
        by simp_all
      from passesTests_unscanned[OF p]
      have fresh: "i \<notin> scannedThisFrame w"
        and p0: "passesTests (scanCooldown c) time sp (zoneRadiusSq c (zones ! z)) {} (i, sc)"
        by simp_all
      from inv have len: "length (scannables w) = length objs"
        and unch: "\<forall>j. j \<notin> scannedThisFrame w \<longrightarrow> scannables w ! j = objs ! j"
        by (simp_all add: sweepInv_def)
      from inv obtain ns where ns: "trace (sys w) = tr0 @ ns"
        "respawns w = map (respawnOf zones objs) ns"
        "distinct (map scannerOf ns)" "distinct (map entityOf ns)"
        "\<forall>n\<in>set ns. scanJustified c time zones objs n
                 \<and> (\<exists>z\<in>Z. scannerOf n = Some z)
                 \<and> (\<exists>i\<in>scannedThisFrame w. entityOf n = Some i)"
        unfolding sweepInv_def by blast
      from unch fresh sc have sco: "sc = objs ! i" by simp
      let ?h = "honourScan time z sp i sc (the (object3D sc)) (restartIfOver w)"
      let ?n = "ScanSucceeded z i (pidOf sc)"
      have eq: "?w' = ?h" using nd f by (simp add: scanZone_find)
      have l': "length (scannables ?h) = length objs"
        by (simp add: honourScan_fields len)
      have u': "\<forall>j. j \<notin> scannedThisFrame ?h \<longrightarrow> scannables ?h ! j = objs ! j"
        using unch by (simp add: honourScan_fields)
      have t': "trace (sys ?h) = tr0 @ (ns @ [?n])"
        by (simp add: honourScan_fields ns(1))
      have r': "respawns ?h = map (respawnOf zones objs) (ns @ [?n])"
        by (simp add: honourScan_respawns ns(2) respawnOf_def z(3) sco)
      have dz: "distinct (map scannerOf (ns @ [?n]))"
        using ns(3,5) z(1) by auto
      have de: "distinct (map entityOf (ns @ [?n]))"
        using ns(4,5) fresh by auto
      have jn: "scanJustified c time zones objs ?n"
        using z(2,3) i len p0 sco by (simp add: scanJustified_def)
      have all: "\<forall>n\<in>set (ns @ [?n]). scanJustified c time zones objs n
                 \<and> (\<exists>z\<in>insert z Z. scannerOf n = Some z)
                 \<and> (\<exists>i\<in>scannedThisFrame ?h. entityOf n = Some i)"
        using ns(5) jn by (auto simp: honourScan_fields)
      show ?thesis
        unfolding eq sweepInv_def using l' u' t' r' dz de all by blast
    qed
  qed
qed

lemma sweepInv_sweepZones:
  assumes "sweepInv c time zones objs tr0 Z w"
    and "distinct (map fst zs)"
    and "\<forall>(z, zone)\<in>set zs. z \<notin> Z \<and> z < length zones \<and> zones ! z = zone"
  shows "sweepInv c time zones objs tr0 (Z \<union> fst ` set zs) (sweepZones c time zs w)"
  using assms
proof (induction zs arbitrary: Z w)
  case Nil
  then show ?case by simp
next
  case (Cons zn zs)
  obtain z zone where zn: "zn = (z, zone)" by (cases zn)
  from Cons.prems(3) zn have z: "z \<notin> Z" "z < length zones" "zones ! z = zone" by auto
  from Cons.prems(2) zn have d: "distinct (map fst zs)" and zfresh: "z \<notin> fst ` set zs" by auto
  have rest: "\<forall>(z', zone')\<in>set zs. z' \<notin> insert z Z \<and> z' < length zones \<and> zones ! z' = zone'"
    using Cons.prems(3) zfresh by force
  have Zeq: "Z \<union> fst ` set (zn # zs) = insert z Z \<union> fst ` set zs" by (auto simp: zn)
  show ?case
  proof (cases "zoneObject3D zone")
    case None
    have "sweepInv c time zones objs tr0 (insert z Z) w"
      by (rule sweepInv_mono[OF Cons.prems(1)]) blast
    from Cons.IH[OF this d rest] show ?thesis by (simp add: zn None Zeq)
  next
    case (Some sp)
    have "sweepInv c time zones objs tr0 (insert z Z)
       (scanZone (scanCooldown c) time z sp (zoneRadiusSq c (zones ! z))
          (enumerate 0 (scannables w)) w)"
      by (rule sweepInv_scanZone[OF Cons.prems(1) z(1,2)]) (simp add: z(3) Some)
    from Cons.IH[OF this d rest] show ?thesis by (simp add: zn Some Zeq z(3))
  qed
qed

lemma sweepInv_update:
  "sweepInv (cfg e) time (scanners e) objs (trace (updateTimer delta s)) {..<length (scanners e)}
     (sweepZones (cfg e) time (enumerate 0 (scanners e)) (sweepStart (updateTimer delta s) objs))"
proof -
  have "sweepInv (cfg e) time (scanners e) objs (trace (updateTimer delta s))
     ({} \<union> fst ` set (enumerate 0 (scanners e)))
     (sweepZones (cfg e) time (enumerate 0 (scanners e)) (sweepStart (updateTimer delta s) objs))"
    by (rule sweepInv_sweepZones[OF sweepInv_start])
      (auto simp: in_set_enumerate_eq)
  then show ?thesis
    by (rule sweepInv_mono) (auto simp: in_set_enumerate_eq)
qed

lemma updateTimer_trace:
  "\<exists>tn. trace (updateTimer delta s) = trace s @ tn
     \<and> (\<forall>n\<in>set tn. scannerOf n = None \<and> entityOf n = None)"
  by (auto simp: updateTimer_def showRoundComplete_def Let_def)

lemma scanJustified_names:
  "scanJustified c time zones objs n \<Longrightarrow> \<exists>z i. n = ScanSucceeded z i (pidOf (objs ! i))"
  by (cases n) (simp_all add: scanJustified_def)

lemma update_emitted:
  obtains tn ns where
    "emitted s (system (update e delta time s objs)) = tn @ ns"
    "emitted s (updateTimer delta s) = tn"
    "\<forall>n\<in>set tn. scannerOf n = None \<and> entityOf n = None"
    "distinct (map scannerOf ns)" "distinct (map entityOf ns)"
    "\<forall>n\<in>set ns. scanJustified (cfg e) time (scanners e) objs n"
proof -
  obtain tn where tn: "trace (updateTimer delta s) = trace s @ tn"
    "\<forall>n\<in>set tn. scannerOf n = None \<and> entityOf n = None"
    using updateTimer_trace by blast
  from sweepInv_update[of e time objs delta s]
  obtain ns where ns: "trace (system (update e delta time s objs)) = trace (updateTimer delta s) @ ns"
    "distinct (map scannerOf ns)" "distinct (map entityOf ns)"
    "\<forall>n\<in>set ns. scanJustified (cfg e) time (scanners e) objs n"
    unfolding sweepInv_def system_update by blast
  have "emitted s (system (update e delta time s objs)) = tn @ ns"
    by (simp add: emitted_def ns(1) tn(1))
  moreover have "emitted s (updateTimer delta s) = tn"
    by (simp add: emitted_def tn(1))
  ultimately show thesis using tn(2) ns(2,3,4) that by blast
qed




lemma sweepZones_trace_prefix:
  "\<exists>ms. trace (sys (sweepZones c time zs w)) = trace (sys w) @ ms"
proof (induction zs arbitrary: w)
  case Nil
  then show ?case by simp
next
  case (Cons zn zs)
  obtain z zone where zn: "zn = (z, zone)" by (cases zn)
  show ?case
  proof (cases "zoneObject3D zone")
    case None
    then show ?thesis using Cons[of w] by (simp add: zn)
  next
    case (Some sp)
    let ?w1 = "scanZone (scanCooldown c) time z sp (zoneRadiusSq c zone)
               (enumerate 0 (scannables w)) w"
    have "\<exists>ms. trace (sys ?w1) = trace (sys w) @ ms"
      by (auto simp: scanZone_find honourScan_fields split: option.splits)
    moreover have "\<exists>ms. trace (sys (sweepZones c time zs ?w1)) = trace (sys ?w1) @ ms"
      by (rule Cons)
    ultimately show ?thesis by (auto simp: zn Some)
  qed
qed

lemma first_scanner_scans:
  assumes r: "reachable s" and d: "0 \<le> delta"
    and sc: "scanners e = zone # others" "zoneObject3D zone = Some sp"
    and f: "find (passesTests (scanCooldown (cfg e)) time sp (zoneRadiusSq (cfg e) zone) {})
             (enumerate 0 objs) = Some (i, x)"
  shows "ScanSucceeded 0 i (pidOf x) \<in> set (emitted s (system (update e delta time s objs)))"
proof -
  let ?s1 = "updateTimer delta s"
  let ?w0 = "sweepStart ?s1 objs"
  let ?w1 = "scanZone (scanCooldown (cfg e)) time 0 sp (zoneRadiusSq (cfg e) zone)
               (enumerate 0 objs) ?w0"
  have nd: "\<not> discards (sys ?w0)"
    using reachable_not_discards[OF reach_timer[OF r d]] by (simp add: sweepStart_def)
  have f': "find (passesTests (scanCooldown (cfg e)) time sp (zoneRadiusSq (cfg e) zone)
      (scannedThisFrame ?w0)) (enumerate 0 objs) = Some (i, x)"
    using f by (simp add: sweepStart_def)
  have t1: "trace (sys ?w1) = trace ?s1 @ [ScanSucceeded 0 i (pidOf x)]"
    using nd f' by (simp add: scanZone_find honourScan_fields) (simp add: sweepStart_def)
  have sys: "system (update e delta time s objs)
      = sys (sweepZones (cfg e) time (enumerate (Suc 0) others) ?w1)"
    by (simp add: system_update sc) (simp add: sweepStart_def)
  obtain ms where ms: "trace (system (update e delta time s objs)) = trace (sys ?w1) @ ms"
    unfolding sys using sweepZones_trace_prefix by blast
  obtain tn where tn: "trace ?s1 = trace s @ tn"
    using updateTimer_trace by blast
  show ?thesis
    by (simp add: emitted_def ms t1 tn)
qed


lemma emitted_scan_justified:
  assumes "n \<in> set (emitted s (system (update e delta time s objs)))"
    and "scannerOf n \<noteq> None \<or> entityOf n \<noteq> None"
  shows "scanJustified (cfg e) time (scanners e) objs n"
proof -
  obtain tn ns where em: "emitted s (system (update e delta time s objs)) = tn @ ns"
    and tn: "\<forall>n\<in>set tn. scannerOf n = None \<and> entityOf n = None"
    and just: "\<forall>n\<in>set ns. scanJustified (cfg e) time (scanners e) objs n"
    by (rule update_emitted)
  from assms tn em have "n \<in> set ns" by auto
  with just show ?thesis by blast
qed

lemma emitted_entity_justified:
  assumes "n \<in> set (emitted s (system (update e delta time s objs)))"
    and "entityOf n = Some i"
  obtains z where "n = ScanSucceeded z i (pidOf (objs ! i))"
    and "z < length (scanners e)" and "i < length objs"
    and "\<exists>sp. zoneObject3D (scanners e ! z) = Some sp
          \<and> passesTests (scanCooldown (cfg e)) time sp (zoneRadiusSq (cfg e) (scanners e ! z)) {}
               (i, objs ! i)"
proof -
  have j: "scanJustified (cfg e) time (scanners e) objs n"
    by (rule emitted_scan_justified[OF assms(1)]) (simp add: assms(2))
  with assms(2) show thesis
    by (cases n) (auto simp: scanJustified_def intro: that split: option.splits)
qed

lemmas scene_defs = eval_defs test_defs plantOnPad_def plantScannedAt_def

lemma padPos: "zoneObject3D scannerPad = Some (9 / 10, 86 / 100, - 5 / 10)"
  by (simp add: scannerPad_def)

lemma deskScanners: "scanners deskEnv = scannerPad # []"
  by (simp add: deskEnv_def)

subsection \<open>One scan per scanner and tick\<close>



subsection \<open>Cooldown\<close>

text \<open>
  Claim C2. An entity whose last scan time \<open>tlast\<close> is not negative and less than the
  cooldown ago gets no scan in the tick, wherever it is. An entity never scanned (last
  scan time \<open>-1\<close>) is not on cooldown, nor is one whose last scan lies at least the
  cooldown back; such an entity, first in iteration order, not scanned out and within
  the radius of the first scanner, is scanned in the tick.
\<close>

theorem cooldown_gate:
  assumes "reachable s" and "0 \<le> delta"
  shows "(i < length objs \<and> lastScanTime (objs ! i) = Some tlast \<and> 0 \<le> tlast
           \<and> time - tlast < scanCooldown (cfg e) \<longrightarrow>
           (\<forall>n\<in>set (emitted s (system (update e delta time s objs))). entityOf n \<noteq> Some i))
    \<and> (lastScanTime x = Some (- 1) \<longrightarrow> \<not> onCooldown cd time x)
    \<and> (lastScanTime x = Some tprev \<and> cd \<le> time - tprev \<longrightarrow> \<not> onCooldown cd time x)
    \<and> (scanners e = zone # others \<and> zoneObject3D zone = Some sp
         \<and> objs = x # rest \<and> object3D x = Some obj \<and> \<not> scannedOut obj
         \<and> distanceToSquared sp (position obj) \<le> zoneRadiusSq (cfg e) zone
         \<and> (lastScanTime x = Some (- 1)
              \<or> lastScanTime x = Some tprev \<and> scanCooldown (cfg e) \<le> time - tprev) \<longrightarrow>
         ScanSucceeded 0 0 (pidOf x) \<in> set (emitted s (system (update e delta time s objs))))"
proof -
  let ?em = "emitted s (system (update e delta time s objs))"
  have blocked: "\<forall>n\<in>set ?em. entityOf n \<noteq> Some i"
    if "lastScanTime (objs ! i) = Some tlast" "0 \<le> tlast" "time - tlast < scanCooldown (cfg e)"
  proof
    fix n assume n: "n \<in> set ?em"
    show "entityOf n \<noteq> Some i"
    proof
      assume "entityOf n = Some i"
      from emitted_entity_justified[OF n this] obtain z sp where
        "passesTests (scanCooldown (cfg e)) time sp (zoneRadiusSq (cfg e) (scanners e ! z)) {}
               (i, objs ! i)" by blast
      with that show False
        by (simp add: passesTests_def onCooldown_def split: option.splits)
    qed
  qed
  have never: "\<not> onCooldown cd time x" if "lastScanTime x = Some (- 1)"
    using that by (simp add: onCooldown_def)
  have elapsed: "\<not> onCooldown cd time x" if "lastScanTime x = Some tprev" "cd \<le> time - tprev"
    using that by (simp add: onCooldown_def)
  have again: "ScanSucceeded 0 0 (pidOf x) \<in> set ?em"
    if sc: "scanners e = zone # others" "zoneObject3D zone = Some sp"
      and x: "objs = x # rest" "object3D x = Some obj" "\<not> scannedOut obj"
        "distanceToSquared sp (position obj) \<le> zoneRadiusSq (cfg e) zone"
      and t: "lastScanTime x = Some (- 1)
              \<or> lastScanTime x = Some tprev \<and> scanCooldown (cfg e) \<le> time - tprev"
  proof -
    from t have "\<not> onCooldown (scanCooldown (cfg e)) time x"
      using never elapsed by (auto simp: onCooldown_def)
    with x have "find (passesTests (scanCooldown (cfg e)) time sp (zoneRadiusSq (cfg e) zone) {})
             (enumerate 0 objs) = Some (0, x)"
      by (simp add: passesTests_def)
    from first_scanner_scans[OF assms sc this] show ?thesis .
  qed
  show ?thesis
    using blocked never elapsed again by blast
qed

theorem cooldown_gate_witness:
  "reachable init
   \<and> lastScanTime ([goldBarOnPad, plantScannedAt 0] ! 1) = Some 0
   \<and> 1 / 2 - 0 < scanCooldown (cfg deskEnv)
   \<and> filter (\<lambda>n. entityOf n = Some 1) (emitted init
          (system (update deskEnv 0 (1 / 2) init [goldBarOnPad, plantScannedAt 0]))) = []
   \<and> ScanSucceeded 0 0 (pidOf goldBarOnPad) \<in> set (emitted init
          (system (update deskEnv 0 (1 / 2) init [goldBarOnPad, plantScannedAt 0])))
   \<and> scanCooldown (cfg deskEnv) \<le> 4 / 5 - 0
   \<and> ScanSucceeded 0 0 (pidOf (plantScannedAt 0)) \<in> set (emitted init
          (system (update deskEnv 0 (4 / 5) init [plantScannedAt 0])))"
proof -
  have d: "(0::real) \<le> 0" by simp
  have a: "(1::nat) < length [goldBarOnPad, plantScannedAt 0]"
    "lastScanTime ([goldBarOnPad, plantScannedAt 0] ! 1) = Some 0"
    "1 / 2 - 0 < scanCooldown (cfg deskEnv)"
    "scanCooldown (cfg deskEnv) \<le> 4 / 5 - 0"
    by (simp_all add: scene_defs)
  have g: "object3D goldBarOnPad
      = Some \<lparr>position = (9 / 10, 86 / 100, - 5 / 10), visible = True, scaleScalar = 42 / 100,
          scannedOut = False\<rparr>" "lastScanTime goldBarOnPad = Some (- 1)"
    by (simp_all add: scene_defs)
  have pl: "object3D (plantScannedAt 0)
      = Some \<lparr>position = (9 / 10, 86 / 100, - 5 / 10), visible = True, scaleScalar = 3 / 10,
          scannedOut = False\<rparr>" "lastScanTime (plantScannedAt 0) = Some 0"
    by (simp_all add: scene_defs)
  have near: "distanceToSquared (9 / 10, 86 / 100, - 5 / 10)
      (position \<lparr>position = (9 / 10, 86 / 100, - 5 / 10), visible = True, scaleScalar = sc,
          scannedOut = False\<rparr>) \<le> zoneRadiusSq (cfg deskEnv) scannerPad" for sc
    by (simp add: scene_defs)
  note A = cooldown_gate[OF reach_init d, where e = deskEnv and zone = scannerPad
        and others = "[]" and sp = "(9 / 10, 86 / 100, - 5 / 10)" and i = 1 and tlast = 0
        and objs = "[goldBarOnPad, plantScannedAt 0]" and time = "1 / 2"
        and x = goldBarOnPad and rest = "[plantScannedAt 0]" and tprev = "- 1"
        and obj = "\<lparr>position = (9 / 10, 86 / 100, - 5 / 10), visible = True,
             scaleScalar = 42 / 100, scannedOut = False\<rparr>"]
  note B = cooldown_gate[OF reach_init d, where e = deskEnv and zone = scannerPad
        and others = "[]" and sp = "(9 / 10, 86 / 100, - 5 / 10)"
        and objs = "[plantScannedAt 0]" and time = "4 / 5"
        and x = "plantScannedAt 0" and rest = "[]" and tprev = 0
        and obj = "\<lparr>position = (9 / 10, 86 / 100, - 5 / 10), visible = True,
             scaleScalar = 3 / 10, scannedOut = False\<rparr>"]
  show ?thesis
    using A B reach_init a g pl near deskScanners padPos
    by (simp del: One_nat_def add: filter_empty_conv)
qed

subsection \<open>Radius\<close>



subsection \<open>Respawns come after the sweep\<close>

lemma spawn_fresh:
  assumes "spawnRandomProductAt g r hx hy hz = Inr (Some x)"
  shows "lastScanTime x = Some (- 1) \<and> homeX x = Some hx \<and> homeY x = Some hy \<and> homeZ x = Some hz
    \<and> (\<exists>obj. object3D x = Some obj \<and> \<not> scannedOut obj \<and> visible obj
          \<and> position obj = (hx, hy, hz))"
  using assms by (auto simp: spawnRandomProductAt_def Let_def split: if_splits)

lemma flushRespawns_fresh:
  "x \<in> set (fst (flushRespawns g rnd k used rs)) \<Longrightarrow>
     lastScanTime x = Some (- 1) \<and> (\<exists>obj. object3D x = Some obj \<and> \<not> scannedOut obj)"
proof (induction rs arbitrary: k used)
  case Nil
  then show ?case by simp
next
  case (Cons r rs)
  show ?case
  proof (cases "slotKey r \<in> used")
    case True
    with Cons show ?thesis by (simp add: Let_def)
  next
    case False
    show ?thesis
    proof (cases "spawnRandomProductAt g (rnd k) (respawnHomeX r) (respawnHomeY r) (respawnHomeZ r)")
      case (Inl err)
      with Cons.prems False show ?thesis by (simp add: Let_def)
    next
      case (Inr v)
      show ?thesis
      proof (cases v)
        case None
        with Cons Inr False show ?thesis by (simp add: Let_def)
      next
        case (Some new)
        from Inr Some spawn_fresh have "lastScanTime new = Some (- 1)
           \<and> (\<exists>obj. object3D new = Some obj \<and> \<not> scannedOut obj)" by blast
        moreover from Cons.prems Inr False Some
        have "x = new \<or> x \<in> set (fst (flushRespawns g rnd (Suc k) (insert (slotKey r) used) rs))"
          by (auto simp: Let_def split: prod.splits)
        ultimately show ?thesis
          using Cons.IH[of "Suc k" "insert (slotKey r) used"] by blast
      qed
    qed
  qed
qed

lemma flushRespawns_length:
  "length (fst (flushRespawns g rnd k used rs)) \<le> length rs"
proof (induction rs arbitrary: k used)
  case Nil
  then show ?case by simp
next
  case (Cons r rs)
  have a: "length (fst (flushRespawns g rnd k' used' rs)) \<le> Suc (length rs)" for k' used'
    using Cons[of k' used'] by simp
  show ?case
    using Cons[of "Suc k" "insert (slotKey r) used"] a
    by (auto simp: Let_def split: sum.splits option.splits prod.splits)
qed

lemma entities_update:
  "entities (update e delta time s objs) =
     scannables (sweepZones (cfg e) time (enumerate 0 (scanners e))
        (sweepStart (updateTimer delta s) objs))
     @ fst (flushRespawns (getGLTF e) (mathRandom e) 0 {}
         (respawns (sweepZones (cfg e) time (enumerate 0 (scanners e))
            (sweepStart (updateTimer delta s) objs))))"
  by (simp add: update_def Let_def split: prod.splits)

lemma update_sweep_facts:
  obtains ns where
    "scans (emitted s (system (update e delta time s objs))) = ns"
    "length (scannables (sweepZones (cfg e) time (enumerate 0 (scanners e))
        (sweepStart (updateTimer delta s) objs))) = length objs"
    "respawns (sweepZones (cfg e) time (enumerate 0 (scanners e))
        (sweepStart (updateTimer delta s) objs)) = map (respawnOf (scanners e) objs) ns"
    "\<forall>n\<in>set ns. scanJustified (cfg e) time (scanners e) objs n"
proof -
  let ?w = "sweepZones (cfg e) time (enumerate 0 (scanners e))
        (sweepStart (updateTimer delta s) objs)"
  obtain tn where tn: "trace (updateTimer delta s) = trace s @ tn"
    "\<forall>n\<in>set tn. scannerOf n = None \<and> entityOf n = None"
    using updateTimer_trace by blast
  from sweepInv_update[of e time objs delta s]
  obtain ns where ns: "trace (sys ?w) = trace (updateTimer delta s) @ ns"
    "respawns ?w = map (respawnOf (scanners e) objs) ns"
    "\<forall>n\<in>set ns. scanJustified (cfg e) time (scanners e) objs n"
    and len: "length (scannables ?w) = length objs"
    unfolding sweepInv_def by blast
  have named: "\<forall>n\<in>set ns. scannerOf n \<noteq> None"
    using ns(3) scanJustified_names by fastforce
  have "scans (tn @ ns) = ns"
    using tn(2) named by (simp add: scans_def filter_empty_conv filter_id_conv)
  moreover have "emitted s (system (update e delta time s objs)) = tn @ ns"
    by (simp add: emitted_def system_update ns(1) tn(1))
  ultimately have "scans (emitted s (system (update e delta time s objs))) = ns"
    by simp
  then show thesis using len ns(2,3) that by blast
qed

lemmas flush_defs = spawnRandomProductAt_def productCatalog_def toFixed3_def slotKey_def

lemma firstTick_entities:
  "entities (update deskEnv 0 0 init [goldBarOnPad]) =
     [\<lparr>object3D = Some \<lparr>position = (0, - 999, 0), visible = False, scaleScalar = 42 / 100,
                        scannedOut = True\<rparr>,
       productId = Some ''goldBar'', lastScanTime = Some 0,
       homeX = Some 0, homeY = Some 0, homeZ = Some 0\<rparr>,
      \<lparr>object3D = Some \<lparr>position = (0, 0, 0), visible = True, scaleScalar = 28 / 100,
                        scannedOut = False\<rparr>,
       productId = Some ''redApple'', lastScanTime = Some (- 1),
       homeX = Some 0, homeY = Some 0, homeZ = Some 0\<rparr>]"
  by (simp add: scene_defs flush_defs)

text \<open>
  Claim C8. The entities after a tick are the entities the tick began with, as the
  complete sweep left them, followed by the entities the flush of the respawn queue
  created from the queue of the complete sweep. Every scan of the tick is of an entity
  the tick began with, and every entity created in the tick is unscanned: last scan time
  \<open>-1\<close> and not scanned out. At most one entity is created per scan.
\<close>

theorem respawn_after_sweep:
  "length objs \<le> length (entities (update e delta time s objs))
   \<and> take (length objs) (entities (update e delta time s objs))
       = scannables (sweepZones (cfg e) time (enumerate 0 (scanners e))
           (sweepStart (updateTimer delta s) objs))
   \<and> drop (length objs) (entities (update e delta time s objs))
       = fst (flushRespawns (getGLTF e) (mathRandom e) 0 {}
           (respawns (sweepZones (cfg e) time (enumerate 0 (scanners e))
              (sweepStart (updateTimer delta s) objs))))
   \<and> (\<forall>n\<in>set (emitted s (system (update e delta time s objs))).
         \<forall>i. entityOf n = Some i \<longrightarrow> i < length objs)
   \<and> (\<forall>x\<in>set (drop (length objs) (entities (update e delta time s objs))).
         lastScanTime x = Some (- 1) \<and> (\<exists>obj. object3D x = Some obj \<and> \<not> scannedOut obj))
   \<and> length (drop (length objs) (entities (update e delta time s objs)))
       \<le> length (scans (emitted s (system (update e delta time s objs))))"
proof -
  let ?w = "sweepZones (cfg e) time (enumerate 0 (scanners e))
        (sweepStart (updateTimer delta s) objs)"
  let ?created = "fst (flushRespawns (getGLTF e) (mathRandom e) 0 {} (respawns ?w))"
  obtain ns where ns: "scans (emitted s (system (update e delta time s objs))) = ns"
    and len: "length (scannables ?w) = length objs"
    and rs: "respawns ?w = map (respawnOf (scanners e) objs) ns"
    by (rule update_sweep_facts)
  have ent: "entities (update e delta time s objs) = scannables ?w @ ?created"
    by (rule entities_update)
  have old: "\<forall>n\<in>set (emitted s (system (update e delta time s objs))).
         \<forall>i. entityOf n = Some i \<longrightarrow> i < length objs"
    using emitted_entity_justified by blast
  have fresh: "\<forall>x\<in>set ?created.
      lastScanTime x = Some (- 1) \<and> (\<exists>obj. object3D x = Some obj \<and> \<not> scannedOut obj)"
    using flushRespawns_fresh by blast
  have cnt: "length ?created \<le> length ns"
    using flushRespawns_length[of "getGLTF e" "mathRandom e" 0 "{}" "respawns ?w"]
    by (simp add: rs)
  show ?thesis
    using old fresh cnt by (simp add: ent len ns)
qed

theorem respawn_after_sweep_witness:
  "length (drop (length [goldBarOnPad]) (entities (update deskEnv 0 0 init [goldBarOnPad]))) = 1
   \<and> map lastScanTime
         (drop (length [goldBarOnPad]) (entities (update deskEnv 0 0 init [goldBarOnPad])))
       = [Some (- 1)]
   \<and> map entityOf (emitted init (system (update deskEnv 0 0 init [goldBarOnPad]))) = [Some 0]
   \<and> length [goldBarOnPad] \<le> length (entities (update deskEnv 0 0 init [goldBarOnPad]))"
proof -
  have n: "length (drop (length [goldBarOnPad])
      (entities (update deskEnv 0 0 init [goldBarOnPad]))) = 1"
    "map lastScanTime
         (drop (length [goldBarOnPad]) (entities (update deskEnv 0 0 init [goldBarOnPad])))
       = [Some (- 1)]"
    by (simp_all add: firstTick_entities)
  have em: "map entityOf (emitted init (system (update deskEnv 0 0 init [goldBarOnPad])))
      = [Some 0]"
    using firstScan_eq by (simp add: firstScan_def emitted_def init_def)
  show ?thesis
    using respawn_after_sweep[of "[goldBarOnPad]" deskEnv 0 0 init] n em by blast
qed

subsection \<open>The clock\<close>









subsection \<open>The flush of the respawn queue\<close>

lemma drawn_index:
  assumes "0 \<le> r" and "r < 1"
  shows "0 \<le> \<lfloor>r * real (length productCatalog)\<rfloor>"
    and "\<lfloor>r * real (length productCatalog)\<rfloor> < int (length productCatalog)"
proof -
  have len: "length productCatalog = 11" by (simp add: productCatalog_def)
  from assms(1) show "0 \<le> \<lfloor>r * real (length productCatalog)\<rfloor>" by (simp add: len)
  from assms(2) have "r * 11 < 11" by simp
  then show "\<lfloor>r * real (length productCatalog)\<rfloor> < int (length productCatalog)"
    by (simp add: len floor_less_iff)
qed

lemma spawnRandomProductAt_drawn:
  assumes "0 \<le> rnd k" and "rnd k < 1"
  shows "spawnRandomProductAt g (rnd k) (respawnHomeX r) (respawnHomeY r) (respawnHomeZ r)
     = Inr (respawned g rnd (k, r))"
proof -
  have ne: "length productCatalog \<noteq> 0" by (simp add: productCatalog_def)
  show ?thesis
    using drawn_index[OF assms] ne
    by (simp add: spawnRandomProductAt_def respawned_def replacement_def drawn_def Let_def
        del: of_nat_mult)
qed

lemma flushRespawns_honoured:
  assumes "\<forall>k. 0 \<le> rnd k \<and> rnd k < 1"
  shows "flushRespawns g rnd k used rs =
     (List.map_filter (respawned g rnd)
        (enumerate k (honoured (filter (\<lambda>q. slotKey q \<notin> used) rs))), None)"
proof (induction rs arbitrary: k used)
  case Nil
  then show ?case by (simp add: List.map_filter_simps)
next
  case (Cons r rs)
  show ?case
  proof (cases "slotKey r \<in> used")
    case True
    then show ?thesis using Cons[of k used] by (simp add: Let_def)
  next
    case False
    have sp: "spawnRandomProductAt g (rnd k) (respawnHomeX r) (respawnHomeY r) (respawnHomeZ r)
       = Inr (respawned g rnd (k, r))"
      using assms by (intro spawnRandomProductAt_drawn) auto
    have f: "filter (\<lambda>q. slotKey q \<noteq> slotKey r) (filter (\<lambda>q. slotKey q \<notin> used) rs)
       = filter (\<lambda>q. slotKey q \<notin> insert (slotKey r) used) rs"
      by (auto intro: filter_cong)
    show ?thesis
      using False Cons[of "Suc k" "insert (slotKey r) used"]
      by (cases "respawned g rnd (k, r)")
        (simp_all add: Let_def sp f List.map_filter_simps conj_commute)
  qed
qed

lemma honoured_keys: "slotKey ` set (honoured rs) = slotKey ` set rs"
proof (induction rs rule: honoured.induct)
  case 1
  then show ?case by simp
next
  case (2 r rs)
  then show ?case by auto
qed

lemma honoured_subset: "set (honoured rs) \<subseteq> set rs"
proof (induction rs rule: honoured.induct)
  case 1
  then show ?case by simp
next
  case (2 r rs)
  then show ?case by auto
qed

lemma honoured_distinct: "distinct (map slotKey (honoured rs))"
proof (induction rs rule: honoured.induct)
  case 1
  then show ?case by simp
next
  case (2 r rs)
  have "slotKey r \<notin> slotKey ` set (honoured (filter (\<lambda>q. slotKey q \<noteq> slotKey r) rs))"
    unfolding honoured_keys by auto
  with 2 show ?case by simp
qed

lemma honoured_snoc:
  "honoured (rs @ [r]) = honoured rs @ (if slotKey r \<in> slotKey ` set rs then [] else [r])"
proof (induction rs rule: honoured.induct)
  case 1
  then show ?case by simp
next
  case (2 a rs)
  show ?case
  proof (cases "slotKey r = slotKey a")
    case True
    then show ?thesis by simp
  next
    case False
    have "slotKey r \<in> slotKey ` set (filter (\<lambda>q. slotKey q \<noteq> slotKey a) rs)
       \<longleftrightarrow> slotKey r \<in> slotKey ` set rs"
      using False by auto
    with 2 False show ?thesis by simp
  qed
qed

lemma thrown_update:
  "thrown (update e delta time s objs) =
     snd (flushRespawns (getGLTF e) (mathRandom e) 0 {}
         (respawns (sweepZones (cfg e) time (enumerate 0 (scanners e))
            (sweepStart (updateTimer delta s) objs))))"
  by (simp add: update_def Let_def split: prod.splits)

lemma drawn_member:
  assumes "0 \<le> r" and "r < 1"
  shows "drawn r \<in> set productCatalog"
proof -
  from drawn_index[OF assms]
  have "nat \<lfloor>r * real (length productCatalog)\<rfloor> < length productCatalog" by linarith
  then show ?thesis unfolding drawn_def by (rule nth_mem)
qed

text \<open>
  Claim C7, as stated, fails where it promises exactly one new entity per honoured slot:
  \<open>spawnRandomProductAt\<close> returns without creating anything when the asset of the drawn
  entry is not loaded. With no asset loaded, the tick that scans the gold bar queues one
  respawn and its flush creates no entity.
\<close>

theorem respawn_without_asset_counterexample:
  "scans (emitted init (system (update noAssets 0 0 init [goldBarOnPad])))
     = [ScanSucceeded 0 0 ''goldBar'']
   \<and> flushRespawns (getGLTF noAssets) (mathRandom noAssets) 0 {}
        [\<lparr>respawnHomeX = 0, respawnHomeY = 0, respawnHomeZ = 0, entity = 0\<rparr>] = ([], None)
   \<and> drop (length [goldBarOnPad]) (entities (update noAssets 0 0 init [goldBarOnPad])) = []"
  by (simp add: noAssets_def scene_defs flush_defs scans_def emitted_def)

text \<open>
  Claim C7, amended. With every value of \<open>Math.random()\<close> in \<open>[0, 1)\<close>, the flush throws
  nothing and creates, in queue order, what the honoured respawns create, where a respawn
  is honoured exactly when no earlier respawn of the queue has the same slot key (the
  three coordinates through \<open>toFixed(3)\<close>). The queue of a tick holds one respawn per scan,
  at the home slot of the scanned entity. An honoured respawn creates one entity when the
  asset of the drawn catalog entry is loaded and none otherwise; the entity created has
  its object and its home at the home slot of the respawn whatever entry was drawn, is
  not scanned out, has last scan time \<open>-1\<close>, the product id of the drawn entry and the
  scale the catalog gives for it.
\<close>

theorem respawn_flush:
  assumes "\<forall>k. 0 \<le> mathRandom e k \<and> mathRandom e k < 1"
  shows "drop (length objs) (entities (update e delta time s objs))
      = List.map_filter (respawned (getGLTF e) (mathRandom e))
          (enumerate 0 (honoured (map (respawnOf (scanners e) objs)
             (scans (emitted s (system (update e delta time s objs)))))))
    \<and> thrown (update e delta time s objs) = None
    \<and> flushRespawns g (mathRandom e) 0 {} rs
        = (List.map_filter (respawned g (mathRandom e)) (enumerate 0 (honoured rs)), None)
    \<and> honoured (rs @ [r]) = honoured rs @ (if slotKey r \<in> slotKey ` set rs then [] else [r])
    \<and> distinct (map slotKey (honoured rs))
    \<and> respawned g (mathRandom e) (k, r)
        = (if g (assetKey (drawn (mathRandom e k)))
           then Some (replacement (drawn (mathRandom e k)) r) else None)
    \<and> drawn (mathRandom e k) \<in> set productCatalog
    \<and> object3D (replacement pdef r)
        = Some \<lparr>position = (respawnHomeX r, respawnHomeY r, respawnHomeZ r), visible = True,
                scaleScalar = defScale pdef, scannedOut = False\<rparr>
    \<and> productId (replacement pdef r) = Some (defProductId pdef)
    \<and> lastScanTime (replacement pdef r) = Some (- 1)
    \<and> homeX (replacement pdef r) = Some (respawnHomeX r)
    \<and> homeY (replacement pdef r) = Some (respawnHomeY r)
    \<and> homeZ (replacement pdef r) = Some (respawnHomeZ r)
    \<and> (homeX (objs ! i) = Some x \<and> homeY (objs ! i) = Some y \<and> homeZ (objs ! i) = Some v
         \<longrightarrow> respawnOf (scanners e) objs (ScanSucceeded z i p)
           = \<lparr>respawnHomeX = x, respawnHomeY = y, respawnHomeZ = v, entity = i\<rparr>)"
proof -
  let ?w = "sweepZones (cfg e) time (enumerate 0 (scanners e))
        (sweepStart (updateTimer delta s) objs)"
  obtain ns where ns: "scans (emitted s (system (update e delta time s objs))) = ns"
    and len: "length (scannables ?w) = length objs"
    and rs: "respawns ?w = map (respawnOf (scanners e) objs) ns"
    by (rule update_sweep_facts)
  have fl: "flushRespawns g' (mathRandom e) 0 {} rs'
        = (List.map_filter (respawned g' (mathRandom e)) (enumerate 0 (honoured rs')), None)"
    for g' rs'
    using flushRespawns_honoured[OF assms, of g' 0 "{}" rs'] by simp
  have created: "drop (length objs) (entities (update e delta time s objs))
      = List.map_filter (respawned (getGLTF e) (mathRandom e))
          (enumerate 0 (honoured (map (respawnOf (scanners e) objs)
             (scans (emitted s (system (update e delta time s objs)))))))"
    by (simp add: entities_update len fl rs ns)
  have nothrow: "thrown (update e delta time s objs) = None"
    by (simp add: thrown_update fl)
  have mem: "drawn (mathRandom e k) \<in> set productCatalog"
    using assms by (intro drawn_member) auto
  have home: "respawnOf (scanners e) objs (ScanSucceeded z i p)
           = \<lparr>respawnHomeX = x, respawnHomeY = y, respawnHomeZ = v, entity = i\<rparr>"
    if "homeX (objs ! i) = Some x \<and> homeY (objs ! i) = Some y \<and> homeZ (objs ! i) = Some v"
    using that by (simp add: respawnOf_def respawnFor_def)
  show ?thesis
    using created nothrow fl[of g rs] honoured_snoc[of rs r] honoured_distinct[of rs] mem home
    by (simp add: respawned_def replacement_def)
qed

theorem respawn_flush_witness:
  "slotKey \<lparr>respawnHomeX = 3 / 10000, respawnHomeY = 87 / 100, respawnHomeZ = - 1 / 2,
        entity = 1\<rparr>
      = slotKey \<lparr>respawnHomeX = 1 / 10000, respawnHomeY = 87 / 100, respawnHomeZ = - 1 / 2,
        entity = 0\<rparr>
   \<and> drop (length [goldBarOnPad]) (entities (update deskEnv 0 0 init [goldBarOnPad]))
     = [replacement \<lparr>defProductId = ''redApple'', assetKey = ''redApple'', defScale = 28 / 100\<rparr>
          \<lparr>respawnHomeX = 0, respawnHomeY = 0, respawnHomeZ = 0, entity = 0\<rparr>]
   \<and> flushRespawns (\<lambda>k. True) (mathRandom deskEnv) 0 {}
        [\<lparr>respawnHomeX = 1 / 10000, respawnHomeY = 87 / 100, respawnHomeZ = - 1 / 2, entity = 0\<rparr>,
         \<lparr>respawnHomeX = 3 / 10000, respawnHomeY = 87 / 100, respawnHomeZ = - 1 / 2, entity = 1\<rparr>]
     = ([replacement \<lparr>defProductId = ''redApple'', assetKey = ''redApple'', defScale = 28 / 100\<rparr>
          \<lparr>respawnHomeX = 1 / 10000, respawnHomeY = 87 / 100, respawnHomeZ = - 1 / 2,
             entity = 0\<rparr>], None)"
proof -
  have rnd: "\<forall>k. 0 \<le> mathRandom deskEnv k \<and> mathRandom deskEnv k < 1"
    by (simp add: deskEnv_def)
  have d: "drawn (mathRandom deskEnv k)
      = \<lparr>defProductId = ''redApple'', assetKey = ''redApple'', defScale = 28 / 100\<rparr>" for k
    by (simp add: drawn_def deskEnv_def productCatalog_def)
  have g: "getGLTF deskEnv = (\<lambda>k. True)" by (simp add: deskEnv_def)
  have q: "map (respawnOf (scanners deskEnv) [goldBarOnPad])
        (scans (emitted init (system (update deskEnv 0 0 init [goldBarOnPad]))))
      = [\<lparr>respawnHomeX = 0, respawnHomeY = 0, respawnHomeZ = 0, entity = 0\<rparr>]"
    using firstScan_eq
    by (simp add: firstScan_def emitted_def init_def scans_def respawnOf_def respawnFor_def
        goldBarOnPad_def spawnProduct_def)
  have k: "slotKey \<lparr>respawnHomeX = 3 / 10000, respawnHomeY = 87 / 100, respawnHomeZ = - 1 / 2,
        entity = 1\<rparr>
      = slotKey \<lparr>respawnHomeX = 1 / 10000, respawnHomeY = 87 / 100, respawnHomeZ = - 1 / 2,
        entity = 0\<rparr>"
    by (simp add: slotKey_def toFixed3_def)
  note A = respawn_flush[OF rnd, where objs = "[goldBarOnPad]" and delta = 0 and time = 0
      and s = init and g = "\<lambda>k. True"
      and rs = "[\<lparr>respawnHomeX = 1 / 10000, respawnHomeY = 87 / 100, respawnHomeZ = - 1 / 2,
                  entity = 0\<rparr>,
                \<lparr>respawnHomeX = 3 / 10000, respawnHomeY = 87 / 100, respawnHomeZ = - 1 / 2,
                  entity = 1\<rparr>]"]
  have c1: "drop (length [goldBarOnPad]) (entities (update deskEnv 0 0 init [goldBarOnPad]))
     = [replacement \<lparr>defProductId = ''redApple'', assetKey = ''redApple'', defScale = 28 / 100\<rparr>
          \<lparr>respawnHomeX = 0, respawnHomeY = 0, respawnHomeZ = 0, entity = 0\<rparr>]"
    unfolding A[THEN conjunct1] q
    by (simp add: d g respawned_def List.map_filter_simps)
  have c3: "flushRespawns (\<lambda>k. True) (mathRandom deskEnv) 0 {}
        [\<lparr>respawnHomeX = 1 / 10000, respawnHomeY = 87 / 100, respawnHomeZ = - 1 / 2, entity = 0\<rparr>,
         \<lparr>respawnHomeX = 3 / 10000, respawnHomeY = 87 / 100, respawnHomeZ = - 1 / 2, entity = 1\<rparr>]
     = ([replacement \<lparr>defProductId = ''redApple'', assetKey = ''redApple'', defScale = 28 / 100\<rparr>
          \<lparr>respawnHomeX = 1 / 10000, respawnHomeY = 87 / 100, respawnHomeZ = - 1 / 2,
             entity = 0\<rparr>], None)"
    unfolding A[THEN conjunct2, THEN conjunct2, THEN conjunct1]
    by (simp add: slotKey_def toFixed3_def d respawned_def List.map_filter_simps)
  show ?thesis using k c1 c3 by blast
qed

end
